theory Spec2Isabelle
  imports Main "HOL-Library.Word"
begin

section \<open>Machine integers and the two-element array\<close>

text \<open>
  The program's \<^verbatim>\<open>int\<close> is a 32-bit two's complement integer and its
  \<^verbatim>\<open>size_t\<close> a 64-bit unsigned one. Comparisons of \<^verbatim>\<open>int\<close>s are
  signed (\<open><s\<close>, \<open>\<le>s\<close>), those of \<^verbatim>\<open>size_t\<close>s unsigned.
\<close>

type_synonym c_int = "32 word"
type_synonym size_t = "64 word"

text \<open>
  \<^verbatim>\<open>std::array<T, 2>\<close>: exactly two slots. Indexing is only ever done after the
  bounds check of the caller, so the index is 0 or 1.
\<close>

type_synonym 'a array2 = "'a \<times> 'a"

fun array2_at :: "'a array2 \<Rightarrow> nat \<Rightarrow> 'a" where
  "array2_at (x0, x1) i = (if i = 0 then x0 else x1)"

fun array2_upd :: "'a array2 \<Rightarrow> nat \<Rightarrow> 'a \<Rightarrow> 'a array2" where
  "array2_upd (x0, x1) i v = (if i = 0 then (v, x1) else (x0, v))"

definition array2_size :: c_int where
  "array2_size = 2"

section \<open>Decimal output: \<^verbatim>\<open>std::to_string(int)\<close>\<close>

definition digit_char :: "int \<Rightarrow> char" where
  "digit_char d = ''0123456789'' ! nat d"

function dec_digits :: "int \<Rightarrow> string" where
  "dec_digits n =
     (if n < 10 then [digit_char n] else dec_digits (n div 10) @ [digit_char (n mod 10)])"
  by pat_completeness auto
termination
  by (relation "measure nat") auto

declare dec_digits.simps [simp del]

text \<open>The sign, then the digits of the magnitude without leading zeros.\<close>

definition to_string :: "c_int \<Rightarrow> string" where
  "to_string x =
     (if sint x < 0 then CHR ''-'' # dec_digits (- sint x) else dec_digits (sint x))"

section \<open>The shared record\<close>

text \<open>
  \<^verbatim>\<open>class SafeStruct\<close>. The state a single thread sees between two calls is the
  content of \<^verbatim>\<open>data\<close>: every method takes the mutexes it needs in a
  \<^verbatim>\<open>unique_lock\<close> and gives them back when it returns, so in a sequential run both
  mutexes are free at every call and carry no information. The methods are state
  transformers; a \<^verbatim>\<open>const\<close> method hands the record back as it found it.
\<close>

record SafeStruct =
  data :: "c_int array2"

definition SafeStruct_init :: SafeStruct where
  "SafeStruct_init = \<lparr>data = (0, 0)\<rparr>"

definition SafeStruct_set :: "SafeStruct \<Rightarrow> c_int \<Rightarrow> c_int \<Rightarrow> SafeStruct" where
  "SafeStruct_set s fld v =
     (if fld <s 0 \<or> array2_size \<le>s fld then s
      else s\<lparr>data := array2_upd (data s) (unat fld) v\<rparr>)"

definition SafeStruct_get :: "SafeStruct \<Rightarrow> c_int \<Rightarrow> c_int \<times> SafeStruct" where
  "SafeStruct_get s fld =
     (if fld <s 0 \<or> array2_size \<le>s fld then (0, s)
      else (array2_at (data s) (unat fld), s))"

text \<open>\<^verbatim>\<open>explicit operator std::string() const\<close>.\<close>

definition SafeStruct_string :: "SafeStruct \<Rightarrow> string \<times> SafeStruct" where
  "SafeStruct_string s =
     (to_string (array2_at (data s) 0) @ '' '' @ to_string (array2_at (data s) 1), s)"

section \<open>Traces and the trace player\<close>

text \<open>\<^verbatim>\<open>enum class Op { READ, WRITE, STR }\<close>; the last is written \<open>STR'\<close>, since
  \<open>STR\<close> is taken by the notation for string literals.\<close>

datatype Op = READ | WRITE | STR'

text \<open>\<^verbatim>\<open>struct Action\<close>, with its default member initialisers in \<open>Action_default\<close>.\<close>

record Action =
  act_op :: Op
  act_field :: c_int
  act_value :: c_int


fun execute :: "Action list \<Rightarrow> SafeStruct \<Rightarrow> SafeStruct" where
  "execute [] s = s"
| "execute (a # as) s =
     (if act_op a = READ then
        (case SafeStruct_get s (act_field a) of (val, s') \<Rightarrow> execute as s')
      else if act_op a = WRITE then
        execute as (SafeStruct_set s (act_field a) (act_value a))
      else
        (case SafeStruct_string s of (tmp, s') \<Rightarrow> execute as s'))"

section \<open>Reading decimal numerals\<close>

text \<open>
  What it means for a string to be the decimal representation of an integer, stated on
  its own and not through \<open>to_string\<close>: digits only, no leading zero except for the
  numeral \<open>0\<close> itself, a leading minus sign exactly for the negative numbers, and the
  value of the digits read left to right.
\<close>

definition is_digit :: "char \<Rightarrow> bool" where
  "is_digit c = (c \<in> set ''0123456789'')"

definition digit_value :: "char \<Rightarrow> int" where
  "digit_value c = of_char c - 48"

definition dec_value :: "string \<Rightarrow> int" where
  "dec_value w = foldl (\<lambda>acc c. 10 * acc + digit_value c) 0 w"

definition decimal_numeral :: "string \<Rightarrow> int \<Rightarrow> bool" where
  "decimal_numeral w k =
     (w \<noteq> [] \<and> list_all is_digit w \<and> (w = ''0'' \<or> hd w \<noteq> CHR ''0'') \<and> dec_value w = k)"

definition decimal_repr :: "string \<Rightarrow> int \<Rightarrow> bool" where
  "decimal_repr w k =
     (if k < 0 then (case w of [] \<Rightarrow> False | c # cs \<Rightarrow> c = CHR ''-'' \<and> decimal_numeral cs (- k))
      else decimal_numeral w k)"

section \<open>Partitioning the operations among the workers\<close>

text \<open>
  The innermost loop of \<^verbatim>\<open>generate_all_files\<close>, for one thread count \<open>t\<close> and one
  variant: \<^verbatim>\<open>for (int i = 0; i < t; ++i)\<close>. Each round calls
  \<^verbatim>\<open>generate_file(filename, nops, ...)\<close>; the model returns the file name and the
  operation count of every call, in order. \<open>base\<close> and \<open>rem\<close> are
  \<^verbatim>\<open>size_t\<close>, the loop counter an \<^verbatim>\<open>int\<close>, and \<^verbatim>\<open>(int)rem\<close> keeps
  the low 32 bits.
\<close>

function generate_pieces ::
  "size_t \<Rightarrow> size_t \<Rightarrow> c_int \<Rightarrow> string \<Rightarrow> c_int \<Rightarrow> (string \<times> size_t) list" where
  "generate_pieces base rem t tag i =
     (if i <s t then
        (''input_'' @ tag @ ''_'' @ to_string t @ ''_'' @ to_string i @ ''.txt'',
         base + (if i <s ucast rem then 1 else 0))
        # generate_pieces base rem t tag (i + 1)
      else [])"
  by pat_completeness auto
termination
proof (relation "measure (\<lambda>(base, rem, t, tag, i). nat (sint t - sint i))")
  show "wf (measure (\<lambda>(base, rem, t, tag, i). nat (sint t - sint i)))"
    by simp
next
  fix base rem :: size_t and t i :: c_int and tag :: string
  assume lt: "i <s t"
  have "sint i < sint t"
    using lt by (simp add: word_sless_alt)
  moreover have "sint t < 2 ^ 31" "- (2 ^ 31) \<le> sint i"
    using sint_lt [of t] sint_ge [of i] by simp_all
  ultimately have "sint (i + 1) = sint i + 1"
    by (simp add: sint_word_ariths signed_take_bit_int_eq_self)
  with \<open>sint i < sint t\<close>
  show "((base, rem, t, tag, i + 1), (base, rem, t, tag, i))
      \<in> measure (\<lambda>(base, rem, t, tag, i). nat (sint t - sint i))"
    by simp
qed

declare generate_pieces.simps [simp del]

text \<open>
  The loop body of \<^verbatim>\<open>generate_all_files\<close> around it: in
  \<^verbatim>\<open>num_ops / t\<close> and \<^verbatim>\<open>num_ops % t\<close> the \<^verbatim>\<open>int\<close> is converted to
  \<^verbatim>\<open>size_t\<close> (sign extension) and the arithmetic is unsigned.
\<close>

definition generate_for_threads :: "size_t \<Rightarrow> c_int \<Rightarrow> string \<Rightarrow> (string \<times> size_t) list" where
  "generate_for_threads num_ops t tag =
     (let base = num_ops div scast t;
          rem = num_ops mod scast t
      in generate_pieces base rem t tag 0)"

section \<open>The trace parser\<close>



text \<open>
  A target of an extraction is \<open>None\<close> while nothing has been written to it: a
  local declared without an initialiser holds no value that the program may read.
\<close>










section \<open>The line grammar of the workload format\<close>









section \<open>Properties of the shared record\<close>

lemma sint_eq_0_iff: "sint (fld :: c_int) = 0 \<longleftrightarrow> fld = 0"
  by (metis sint_0 word_eq_iff_signed)

lemma sint_eq_1_iff: "sint (fld :: c_int) = 1 \<longleftrightarrow> fld = 1"
proof -
  have "sint (1 :: c_int) = 1" by simp
  then show ?thesis by (metis word_eq_iff_signed)
qed

lemma field_valid_iff:
  "(fld <s 0 \<or> array2_size \<le>s fld) \<longleftrightarrow> (fld \<noteq> 0 \<and> fld \<noteq> (1 :: c_int))"
proof -
  have "(fld <s 0 \<or> array2_size \<le>s fld) \<longleftrightarrow> \<not> (sint fld = 0 \<or> sint fld = 1)"
    by (auto simp: array2_size_def word_sless_alt word_sle_eq)
  then show ?thesis
    by (simp add: sint_eq_0_iff sint_eq_1_iff)
qed

text \<open>
  C2. A call of \<open>set\<close> with a field other than 0 and 1 returns the record as it was,
  whatever the value: neither field changes, and the call has no other outcome.
\<close>

theorem set_invalid_field_no_effect:
  "fld \<noteq> 0 \<Longrightarrow> fld \<noteq> 1 \<Longrightarrow> SafeStruct_set s fld v = s"
  using field_valid_iff [of fld] by (simp add: SafeStruct_set_def)

theorem set_invalid_field_no_effect_witness:
  "(- 1 :: c_int) \<noteq> 0 \<and> (- 1 :: c_int) \<noteq> 1
   \<and> SafeStruct_set \<lparr>data = (3, 4)\<rparr> (- 1) 9 = \<lparr>data = (3, 4)\<rparr>"
  using set_invalid_field_no_effect [of "- 1" "\<lparr>data = (3, 4)\<rparr>" 9] by simp

text \<open>
  C3. A call of \<open>get\<close> with a field other than 0 and 1 returns 0, in every state
  of the record.
\<close>

theorem get_invalid_field_zero:
  "fld \<noteq> 0 \<Longrightarrow> fld \<noteq> 1 \<Longrightarrow> fst (SafeStruct_get s fld) = 0"
  using field_valid_iff [of fld] by (simp add: SafeStruct_get_def)

theorem get_invalid_field_zero_witness:
  "(2 :: c_int) \<noteq> 0 \<and> (2 :: c_int) \<noteq> 1 \<and> fst (SafeStruct_get \<lparr>data = (3, 4)\<rparr> 2) = 0"
  using get_invalid_field_zero [of 2 "\<lparr>data = (3, 4)\<rparr>"] by simp

text \<open>
  C10. A call of \<open>get\<close> hands the record back with both fields as they were, for
  every field argument, valid or not.
\<close>

theorem get_leaves_record_unchanged:
  "snd (SafeStruct_get s fld) = s"
  by (simp add: SafeStruct_get_def)

section \<open>Properties of the snapshot\<close>

lemma digit_char_props:
  assumes "0 \<le> d" "d < 10"
  shows "is_digit (digit_char d)" "digit_value (digit_char d) = d"
    "(digit_char d = CHR ''0'') = (d = 0)"
proof -
  from assms have "d \<in> {0, 1, 2, 3, 4, 5, 6, 7, 8, 9}" by (simp, arith)
  then show "is_digit (digit_char d)" "digit_value (digit_char d) = d"
    "(digit_char d = CHR ''0'') = (d = 0)"
    by (auto simp: digit_char_def is_digit_def digit_value_def)
qed

lemma dec_value_snoc: "dec_value (w @ [c]) = 10 * dec_value w + digit_value c"
  by (simp add: dec_value_def)

lemma dec_digits_numeral: "0 \<le> n \<Longrightarrow> decimal_numeral (dec_digits n) n"
proof (induction n rule: dec_digits.induct)
  case (1 n)
  show ?case
  proof (cases "n < 10")
    case True
    with "1.prems" show ?thesis
      using digit_char_props [of n]
      by (simp add: dec_digits.simps [of n] decimal_numeral_def dec_value_def)
  next
    case False
    then have ih: "decimal_numeral (dec_digits (n div 10)) (n div 10)"
      using "1.IH" "1.prems" by simp
    have d: "0 \<le> n mod 10" "n mod 10 < 10" by simp_all
    have nz: "dec_digits (n div 10) \<noteq> ''0''"
      using ih False by (auto simp: decimal_numeral_def dec_value_def digit_value_def)
    from ih nz have hd0: "hd (dec_digits (n div 10)) \<noteq> CHR ''0''"
      and ne: "dec_digits (n div 10) \<noteq> []"
      by (auto simp: decimal_numeral_def)
    show ?thesis
      using ih hd0 ne digit_char_props [OF d] False
      by (simp add: dec_digits.simps [of n] decimal_numeral_def dec_value_snoc)
  qed
qed

lemma to_string_decimal: "decimal_repr (to_string x) (sint x)"
  using dec_digits_numeral [of "sint x"] dec_digits_numeral [of "- sint x"]
  by (simp add: to_string_def decimal_repr_def)

text \<open>
  C9. In every state the snapshot is the decimal representation of field 0, one space,
  and the decimal representation of field 1, in that order.
\<close>

theorem snapshot_string_format:
  "\<exists>w0 w1. fst (SafeStruct_string s) = w0 @ '' '' @ w1
     \<and> decimal_repr w0 (sint (array2_at (data s) 0))
     \<and> decimal_repr w1 (sint (array2_at (data s) 1))"
proof (intro exI conjI)
  show "fst (SafeStruct_string s)
      = to_string (array2_at (data s) 0) @ '' '' @ to_string (array2_at (data s) 1)"
    by (simp add: SafeStruct_string_def)
  show "decimal_repr (to_string (array2_at (data s) 0)) (sint (array2_at (data s) 0))"
    by (rule to_string_decimal)
  show "decimal_repr (to_string (array2_at (data s) 1)) (sint (array2_at (data s) 1))"
    by (rule to_string_decimal)
qed

theorem snapshot_string_format_witness:
  "\<exists>w0 w1. fst (SafeStruct_string \<lparr>data = (7, - 42)\<rparr>) = w0 @ '' '' @ w1
     \<and> decimal_repr w0 7 \<and> decimal_repr w1 (- 42)"
  using snapshot_string_format [of "\<lparr>data = (7, - 42)\<rparr>"] by simp

section \<open>Properties of the trace player\<close>

text \<open>
  C6. On a workload of length 0 the trace player returns the record it was given, in
  every state: both fields are unchanged.
\<close>

theorem execute_empty_workload:
  "execute [] s = s"
  by simp

text \<open>
  C4. A single worker that plays the workload Write(0, 7), Read(0) on a fresh record
  leaves field 0 with the value 7: that is what the record holds afterwards and what a
  further \<open>get\<close> of field 0 observes.
\<close>

theorem execute_write_then_read:
  "execute [\<lparr>act_op = WRITE, act_field = 0, act_value = 7\<rparr>,
            \<lparr>act_op = READ, act_field = 0, act_value = 0\<rparr>] SafeStruct_init
     = \<lparr>data = (7, 0)\<rparr>
   \<and> fst (SafeStruct_get (execute [\<lparr>act_op = WRITE, act_field = 0, act_value = 7\<rparr>,
            \<lparr>act_op = READ, act_field = 0, act_value = 0\<rparr>] SafeStruct_init) 0) = 7"
  by (simp add: SafeStruct_set_def SafeStruct_get_def SafeStruct_init_def array2_size_def
      word_sless_alt word_sle_eq)

section \<open>Properties of the partition\<close>

lemma int_lt_2p31: "n < 2 ^ 31 \<Longrightarrow> int n < 2 ^ 31"
  by simp

lemma signed_take_bit_31_nat: "n < 2 ^ 31 \<Longrightarrow> signed_take_bit 31 (int n) = int n"
  by (rule signed_take_bit_int_eq_self) simp_all

lemma sint_ucast_small:
  assumes "unat (r :: size_t) < 2 ^ 31"
  shows "sint (ucast r :: c_int) = int (unat r)"
proof -
  have "sint (ucast r :: c_int) = signed_take_bit (LENGTH(32) - Suc 0) (uint r)"
    by (rule signed_ucast_eq)
  also have "\<dots> = signed_take_bit 31 (int (unat r))"
    by simp
  also have "\<dots> = int (unat r)"
    using assms by (rule signed_take_bit_31_nat)
  finally show ?thesis .
qed

lemma sint_of_nat_small:
  assumes "j < 2 ^ 31"
  shows "sint (word_of_nat j :: c_int) = int j"
proof -
  have "sint (word_of_nat j :: c_int) = signed_take_bit (LENGTH(32) - Suc 0) (int j)"
    using signed_of_nat [where ?'b = 32 and ?'a = int, of j] by simp
  also have "\<dots> = signed_take_bit 31 (int j)"
    by simp
  also have "\<dots> = int j"
    using assms by (rule signed_take_bit_31_nat)
  finally show ?thesis .
qed

lemma unat_scast_nonneg:
  assumes "0 \<le> sint (t :: c_int)"
  shows "unat (scast t :: size_t) = nat (sint t)"
proof -
  have "sint t < 2 ^ 31"
    using sint_lt [of t] by simp
  moreover have "(2 :: int) ^ 31 \<le> 2 ^ 64"
    by simp
  ultimately have "sint t < 2 ^ 64"
    by (rule order.strict_trans2)
  have "uint (scast t :: size_t) = sint t mod 2 ^ 64"
    unfolding scast_eq uint_word_of_int by simp
  also have "\<dots> = sint t"
    using assms \<open>sint t < 2 ^ 64\<close> by (rule mod_pos_pos_trivial)
  finally have "int (unat (scast t :: size_t)) = sint t"
    by simp
  then show ?thesis
    by linarith
qed

lemma sint_succ:
  assumes "i <s (t :: c_int)"
  shows "sint (i + 1) = sint i + 1"
proof -
  have "sint i < sint t"
    using assms by (simp add: word_sless_alt)
  moreover have "sint t < 2 ^ 31" "- (2 ^ 31) \<le> sint i"
    using sint_lt [of t] sint_ge [of i] by simp_all
  ultimately show ?thesis
    by (simp add: sint_word_ariths signed_take_bit_int_eq_self)
qed

text \<open>The operation count of round \<open>j\<close>, as the loop body computes it.\<close>

lemma generate_pieces_sizes:
  "0 \<le> sint i \<Longrightarrow> sint i \<le> sint t \<Longrightarrow>
   map snd (generate_pieces base rem t tag i)
     = map (\<lambda>j. base + (if (word_of_nat j :: c_int) <s ucast rem then 1 else 0))
         [nat (sint i) ..< nat (sint t)]"
proof (induction base rem t tag i rule: generate_pieces.induct)
  case (1 base rem t tag i)
  show ?case
  proof (cases "i <s t")
    case True
    then have lt: "sint i < sint t"
      by (simp add: word_sless_alt)
    have succ: "sint (i + 1) = sint i + 1"
      using True by (rule sint_succ)
    have ih: "map snd (generate_pieces base rem t tag (i + 1))
        = map (\<lambda>j. base + (if (word_of_nat j :: c_int) <s ucast rem then 1 else 0))
            [nat (sint (i + 1)) ..< nat (sint t)]"
      using "1.IH" [OF True] "1.prems" lt succ by simp
    have idx: "nat (sint (i + 1)) = Suc (nat (sint i))"
      using "1.prems" succ by simp
    have here: "(word_of_nat (nat (sint i)) :: c_int) = i"
      using "1.prems" by simp
    have upt: "[nat (sint i) ..< nat (sint t)] = nat (sint i) # [Suc (nat (sint i)) ..< nat (sint t)]"
      using lt "1.prems" by (intro upt_conv_Cons) simp
    show ?thesis
      unfolding generate_pieces.simps [of base rem t tag i] upt
      using True ih idx here by simp
  next
    case False
    then have "sint i = sint t"
      using "1.prems" by (simp add: word_sless_alt)
    with False show ?thesis
      unfolding generate_pieces.simps [of base rem t tag i] by simp
  qed
qed

lemma sum_list_partition:
  "sum_list (map (\<lambda>j. q + (if j < r then 1 else 0)) [0..<k]) = k * q + min r (k :: nat)"
  by (induction k) auto

lemma partition_sizes_nat:
  fixes num_ops :: size_t and t :: c_int
  assumes t: "1 \<le>s t"
  defines "k \<equiv> nat (sint t)" and "n \<equiv> unat num_ops"
  shows "map (unat \<circ> snd) (generate_for_threads num_ops t tag)
     = map (\<lambda>j. n div k + (if j < n mod k then 1 else 0)) [0..<k]"
proof -
  have t1: "1 \<le> sint t"
    using t by (simp add: word_sle_eq)
  have k1: "1 \<le> k" and k31: "k < 2 ^ 31"
    using t1 sint_lt [of t] by (simp_all add: k_def)
  have kt: "unat (scast t :: size_t) = k"
    using t1 by (simp add: k_def unat_scast_nonneg)
  define base where "base = num_ops div scast t"
  define rem where "rem = num_ops mod scast t"
  have ub: "unat base = n div k"
    by (simp add: base_def unat_div kt n_def)
  have ur: "unat rem = n mod k"
    by (simp add: rem_def unat_mod kt n_def)
  have r31: "unat rem < 2 ^ 31"
    using k1 k31 ur by (metis le_less_trans less_or_eq_imp_le mod_less_divisor zero_less_one_class.zero_less_one order.strict_trans1 less_le_trans)
  have rs: "sint (ucast rem :: c_int) = int (n mod k)"
    using sint_ucast_small [OF r31] ur by simp
  have sizes: "map snd (generate_for_threads num_ops t tag)
      = map (\<lambda>j. base + (if (word_of_nat j :: c_int) <s ucast rem then 1 else 0)) [0..<k]"
    using generate_pieces_sizes [of 0 t base rem tag] t1
    by (simp add: generate_for_threads_def base_def rem_def k_def Let_def)
  have one: "unat (base + 1) = n div k + 1" if "0 < n mod k"
  proof -
    have "n div k + 1 \<le> n"
    proof -
      have "n = k * (n div k) + n mod k" by simp
      moreover have "n div k \<le> k * (n div k)" using k1 by simp
      ultimately show ?thesis using that by linarith
    qed
    moreover have "n < 2 ^ 64"
      using unsigned_less [of num_ops, where ?'a = nat] by (simp add: n_def)
    ultimately have "unat base + unat (1 :: size_t) < 2 ^ LENGTH(64)"
      using ub by simp
    then have "unat (base + 1) = unat base + unat (1 :: size_t)"
      by (simp only: unat_add_lem)
    then show ?thesis using ub by simp
  qed
  have each: "unat (base + (if (word_of_nat j :: c_int) <s ucast rem then 1 else 0))
      = n div k + (if j < n mod k then 1 else 0)" if "j < k" for j
  proof -
    have "j < 2 ^ 31" using that k31 by simp
    then have "sint (word_of_nat j :: c_int) = int j"
      by (rule sint_of_nat_small)
    then have c: "(word_of_nat j :: c_int) <s ucast rem \<longleftrightarrow> j < n mod k"
      using rs by (simp add: word_sless_alt)
    show ?thesis
    proof (cases "j < n mod k")
      case True
      then have "0 < n mod k" by simp
      with True c one show ?thesis by simp
    next
      case False
      with c ub show ?thesis by simp
    qed
  qed
  have "map (unat \<circ> snd) (generate_for_threads num_ops t tag)
      = map unat (map snd (generate_for_threads num_ops t tag))"
    by simp
  also have "\<dots> = map (\<lambda>j. unat (base + (if (word_of_nat j :: c_int) <s ucast rem then 1 else 0))) [0..<k]"
    unfolding sizes by (simp add: comp_def)
  also have "\<dots> = map (\<lambda>j. n div k + (if j < n mod k then 1 else 0)) [0..<k]"
    by (rule map_cong) (simp_all add: each)
  finally show ?thesis .
qed


text \<open>
  C1. For every operation count and every thread count \<open>t\<close> of at least 1, the loop
  makes \<open>t\<close> pieces; piece \<open>i\<close> has \<open>num_ops div t + 1\<close> operations when
  \<open>i < num_ops mod t\<close> and \<open>num_ops div t\<close> otherwise, and the sizes add up to
  \<open>num_ops\<close>.
\<close>

theorem partition_sizes:
  fixes num_ops :: size_t and t :: c_int
  assumes "1 \<le>s t"
  shows "length (generate_for_threads num_ops t tag) = nat (sint t)
     \<and> (\<forall>i < nat (sint t).
          unat (snd (generate_for_threads num_ops t tag ! i))
            = unat num_ops div nat (sint t)
              + (if i < unat num_ops mod nat (sint t) then 1 else 0))
     \<and> (\<Sum>p \<leftarrow> generate_for_threads num_ops t tag. unat (snd p)) = unat num_ops"
proof -
  define k where "k = nat (sint t)"
  define n where "n = unat num_ops"
  define P where "P = generate_for_threads num_ops t tag"
  have sizes: "map (unat \<circ> snd) P = map (\<lambda>j. n div k + (if j < n mod k then 1 else 0)) [0..<k]"
    unfolding P_def k_def n_def using assms by (rule partition_sizes_nat)
  have "1 \<le> sint t"
    using assms by (simp add: word_sle_eq)
  then have k: "0 < k"
    by (simp add: k_def)
  have len: "length P = k"
    using arg_cong [OF sizes, of length] by simp
  have nth: "unat (snd (P ! i)) = n div k + (if i < n mod k then 1 else 0)" if "i < k" for i
  proof -
    have "unat (snd (P ! i)) = map (unat \<circ> snd) P ! i"
      using that len by simp
    also have "\<dots> = n div k + (if i < n mod k then 1 else 0)"
      unfolding sizes using that by simp
    finally show ?thesis .
  qed
  have "(\<Sum>p \<leftarrow> P. unat (snd p)) = sum_list (map (unat \<circ> snd) P)"
    by (simp add: comp_def)
  also have "\<dots> = k * (n div k) + min (n mod k) k"
    unfolding sizes by (rule sum_list_partition)
  also have "\<dots> = n"
    using k by (simp add: min_def)
  finally have total: "(\<Sum>p \<leftarrow> P. unat (snd p)) = n" .
  show ?thesis
    using len nth total unfolding P_def k_def n_def by blast
qed

theorem partition_sizes_witness:
  "1 \<le>s (3 :: c_int)
   \<and> length (generate_for_threads 10 3 ''A'') = 3
   \<and> unat (snd (generate_for_threads 10 3 ''A'' ! 0)) = 4
   \<and> unat (snd (generate_for_threads 10 3 ''A'' ! 1)) = 3
   \<and> unat (snd (generate_for_threads 10 3 ''A'' ! 2)) = 3
   \<and> (\<Sum>p \<leftarrow> generate_for_threads 10 3 ''A''. unat (snd p)) = 10"
proof -
  have h: "1 \<le>s (3 :: c_int)"
    by (simp add: word_sle_eq)
  have k: "nat (sint (3 :: c_int)) = 3" and n: "unat (10 :: size_t) = 10"
    by simp_all
  note p = partition_sizes [OF h, of 10 "''A''", unfolded k n]
  from p have nth: "\<forall>i<3. unat (snd (generate_for_threads 10 3 ''A'' ! i))
      = 10 div 3 + (if i < 10 mod 3 then 1 else 0)"
    by blast
  from nth have "unat (snd (generate_for_threads 10 3 ''A'' ! 0)) = 4"
    "unat (snd (generate_for_threads 10 3 ''A'' ! 1)) = 3"
    "unat (snd (generate_for_threads 10 3 ''A'' ! 2)) = 3"
    by simp_all
  with h p show ?thesis
    by simp
qed

section \<open>Properties of the trace parser\<close>









lemma digit_not_sign: "is_digit c \<Longrightarrow> c \<noteq> CHR ''-'' \<and> c \<noteq> CHR ''+''"
  by (auto simp: is_digit_def)











end
